theory Spec2Isabelle
  imports Complex_Main
begin

section \<open>JavaScript values\<close>

text \<open>
  The player (\<^verbatim>\<open>src/app/page.tsx\<close>, functions \<^verbatim>\<open>noteToFrequency\<close> and
  \<^verbatim>\<open>playSong\<close>) works on JavaScript strings and numbers.

  A string is a \<^typ>\<open>string\<close>; a character stands for the code unit of the same number,
  so the model covers the code units below 256.

  A number is a \<open>jsnum\<close>: a finite value, or one of the three values that are not finite.
  The range of the doubles is modelled: a result at or beyond the overflow threshold is an
  infinity, and one at or below half the least subnormal is zero (\<open>to_double\<close>). The
  rounding of a result inside the range to 53 bits is not modelled: there a finite double
  is the real number it approximates.
\<close>

datatype jsnum = Num real | NaN | PosInf | NegInf

text \<open>
  Round-to-nearest sends every real of magnitude at least \<open>2^1024 - 2^970\<close> to an infinity
  and every real of magnitude at most \<open>2^-1075\<close> to zero.
\<close>

definition overflow_threshold :: real where
  "overflow_threshold = 2 ^ 1024 - 2 ^ 970"

definition underflow_threshold :: real where
  "underflow_threshold = 1 / 2 ^ 1075"

definition to_double :: "real \<Rightarrow> jsnum" where
  "to_double r =
     (if overflow_threshold \<le> r then PosInf
      else if r \<le> - overflow_threshold then NegInf
      else if \<bar>r\<bar> \<le> underflow_threshold then Num 0
      else Num r)"

text \<open>The \<^verbatim>\<open>+\<close> of two numbers.\<close>

fun jadd :: "jsnum \<Rightarrow> jsnum \<Rightarrow> jsnum" where
  "jadd (Num a) (Num b) = to_double (a + b)"
| "jadd NaN _ = NaN"
| "jadd _ NaN = NaN"
| "jadd PosInf NegInf = NaN"
| "jadd NegInf PosInf = NaN"
| "jadd PosInf _ = PosInf"
| "jadd _ PosInf = PosInf"
| "jadd NegInf _ = NegInf"
| "jadd _ NegInf = NegInf"

text \<open>
  A thrown value: an error object with its \<^verbatim>\<open>name\<close> and \<^verbatim>\<open>message\<close>.
  \<^verbatim>\<open>new Error(m)\<close> is \<open>Exn ''Error'' m\<close>. \<open>exn_to_string\<close> is what
  \<^verbatim>\<open>"" + e\<close> gives (\<^verbatim>\<open>Error.prototype.toString\<close>).
\<close>

datatype exn = Exn string string

fun exn_to_string :: "exn \<Rightarrow> string" where
  "exn_to_string (Exn name msg) =
     (if name = [] then msg else if msg = [] then name else name @ '': '' @ msg)"

subsection \<open>Character classes\<close>

text \<open>\<^verbatim>\<open>\d\<close> of a regular expression without the unicode flag: the ten ASCII digits.\<close>

definition is_digit :: "char \<Rightarrow> bool" where
  "is_digit c \<longleftrightarrow> c \<in> set ''0123456789''"

text \<open>
  \<^verbatim>\<open>\s\<close>, which is also what \<^verbatim>\<open>trim\<close> and \<^verbatim>\<open>parseFloat\<close> strip: tab, line feed,
  vertical tab, form feed, carriage return, space and the no-break space (the white space
  and line terminators below code unit 256).
\<close>

definition is_space :: "char \<Rightarrow> bool" where
  "is_space c \<longleftrightarrow>
     c \<in> set [CHR 0x09, CHR 0x0A, CHR 0x0B, CHR 0x0C, CHR 0x0D, CHR 0x20, CHR 0xA0]"

definition digit_value :: "char \<Rightarrow> nat" where
  "digit_value c = of_char c - 48"

text \<open>The value of a string of decimal digits.\<close>

definition decimal :: "string \<Rightarrow> nat" where
  "decimal ds = foldl (\<lambda>n c. 10 * n + digit_value c) 0 ds"

subsection \<open>parseInt and parseFloat\<close>

text \<open>
  \<^verbatim>\<open>parseInt(s, 10)\<close>: leading white space is skipped, a sign is read, and the longest
  prefix of digits is the value. \<open>None\<close> stands for NaN (no digit). The value is the
  exact integer: \<^verbatim>\<open>parseInt\<close> rounds it to a double only beyond \<open>2^53\<close>, and
  \<open>noteToFrequency\<close>, the one caller, returns Infinity for every octave from 1020 upward,
  rounded or not.
\<close>

definition parseInt10 :: "string \<Rightarrow> int option" where
  "parseInt10 s =
     (let s1 = dropWhile is_space s;
          neg = (s1 \<noteq> [] \<and> hd s1 = CHR ''-'');
          s2 = (if s1 \<noteq> [] \<and> (hd s1 = CHR ''+'' \<or> hd s1 = CHR ''-'') then tl s1 else s1);
          ds = takeWhile is_digit s2
      in if ds = [] then None
         else Some (if neg then - int (decimal ds) else int (decimal ds)))"

text \<open>
  The exponent part of a decimal literal, \<^verbatim>\<open>[eE][+-]?[0-9]+\<close>, at the head of a string.
  An incomplete exponent is not part of the literal: the exponent is then 0.
\<close>

definition exponent_part :: "string \<Rightarrow> int" where
  "exponent_part r =
     (case r of
        [] \<Rightarrow> 0
      | e # r1 \<Rightarrow>
          if e = CHR ''e'' \<or> e = CHR ''E'' then
            (let neg = (r1 \<noteq> [] \<and> hd r1 = CHR ''-'');
                 r2 = (if r1 \<noteq> [] \<and> (hd r1 = CHR ''+'' \<or> hd r1 = CHR ''-'') then tl r1 else r1);
                 ds = takeWhile is_digit r2
             in if ds = [] then 0
                else if neg then - int (decimal ds) else int (decimal ds))
          else 0)"

text \<open>
  \<^verbatim>\<open>parseFloat(s)\<close>: leading white space is skipped and the longest prefix that is a
  decimal literal (sign, \<^verbatim>\<open>Infinity\<close> or digits with an optional fraction and exponent) is
  the value; whatever follows the prefix is ignored. NaN when there is no such prefix.
  The value of the literal is brought into the range of the doubles: a literal such as
  \<^verbatim>\<open>1e400\<close> is Infinity. It never throws.
\<close>

definition parseFloat :: "string \<Rightarrow> jsnum" where
  "parseFloat s =
     (let s1 = dropWhile is_space s;
          neg = (s1 \<noteq> [] \<and> hd s1 = CHR ''-'');
          s2 = (if s1 \<noteq> [] \<and> (hd s1 = CHR ''+'' \<or> hd s1 = CHR ''-'') then tl s1 else s1)
      in if take 8 s2 = ''Infinity'' then (if neg then NegInf else PosInf)
         else
           (let ip = takeWhile is_digit s2;
                r1 = dropWhile is_digit s2;
                dot = (r1 \<noteq> [] \<and> hd r1 = CHR ''.'');
                fp = (if dot then takeWhile is_digit (tl r1) else []);
                r2 = (if dot then dropWhile is_digit (tl r1) else r1)
            in if ip = [] \<and> fp = [] then NaN
               else
                 (let m = real (decimal ip) + real (decimal fp) / 10 ^ length fp;
                      ex = exponent_part r2;
                      v = (if 0 \<le> ex then m * 10 ^ nat ex else m / 10 ^ nat (- ex))
                  in to_double (if neg then - v else v))))"

section \<open>noteToFrequency\<close>

text \<open>
  The match of \<^verbatim>\<open>/^([A-G])(#|b)?(\d+)$/\<close>: the three groups (pitch letter, accidental
  if any, octave digits), or \<open>None\<close> when the string does not match. The accidental is
  tried first; without it the digits must begin right after the letter.
\<close>

fun note_match :: "string \<Rightarrow> (char \<times> char option \<times> string) option" where
  "note_match [] = None"
| "note_match (p # rest) =
     (if p \<in> set ''ABCDEFG'' then
        (case rest of
           [] \<Rightarrow> None
         | a # ds \<Rightarrow>
             if (a = CHR ''#'' \<or> a = CHR ''b'') \<and> ds \<noteq> [] \<and> list_all is_digit ds
             then Some (p, Some a, ds)
             else if list_all is_digit rest then Some (p, None, rest)
             else None)
      else None)"

text \<open>The table \<^verbatim>\<open>semitones\<close>.\<close>

definition semitones :: "(char \<times> int) list" where
  "semitones =
     [(CHR ''C'', 0), (CHR ''D'', 2), (CHR ''E'', 4), (CHR ''F'', 5),
      (CHR ''G'', 7), (CHR ''A'', 9), (CHR ''B'', 11)]"

text \<open>
  The local \<^verbatim>\<open>midi\<close> computed from the three groups. \<open>None\<close> stands for NaN, which
  a letter missing from the table or an octave without digits would give.
\<close>

definition midi_of :: "char \<times> char option \<times> string \<Rightarrow> int option" where
  "midi_of m =
     (case m of (pitch, accidental, oct) \<Rightarrow>
        (case map_of semitones pitch of
           None \<Rightarrow> None
         | Some sem0 \<Rightarrow>
             (let sem1 = (if accidental = Some CHR ''#'' then sem0 + 1 else sem0);
                  sem = (if accidental = Some CHR ''b'' then sem1 - 1 else sem1)
              in case parseInt10 oct of
                   None \<Rightarrow> None
                 | Some octave \<Rightarrow> Some ((octave + 1) * 12 + sem))))"

definition noteToFrequency :: "string \<Rightarrow> exn + jsnum" where
  "noteToFrequency note =
     (case note_match note of
        None \<Rightarrow> Inl (Exn ''Error'' (''Invalid note: '' @ note))
      | Some m \<Rightarrow>
          (case midi_of m of
             None \<Rightarrow> Inr NaN
           | Some midi \<Rightarrow>
               (let diff = midi - 69
                in Inr (to_double (440 * 2 powr (real_of_int diff / 12))))))"

section \<open>playSong\<close>

subsection \<open>Tokens\<close>

text \<open>\<^verbatim>\<open>data.trim()\<close>: white space is removed at both ends.\<close>

definition trim :: "string \<Rightarrow> string" where
  "trim s = rev (dropWhile is_space (rev (dropWhile is_space s)))"

text \<open>
  \<^verbatim>\<open>s.split(/\s+/)\<close>: the string is cut at every maximal run of white space. A string
  with no white space is returned whole, as the only part; this holds for the empty
  string too, whose split is the one empty part. A run at the very start or end (none is
  left after \<open>trim\<close>) leaves an empty part before or after it.
\<close>

function split_ws :: "string \<Rightarrow> string list" where
  "split_ws s =
     (case dropWhile (\<lambda>c. \<not> is_space c) s of
        [] \<Rightarrow> [s]
      | c # r \<Rightarrow> takeWhile (\<lambda>c. \<not> is_space c) s # split_ws (dropWhile is_space r))"
  by pat_completeness auto
termination
proof (relation "measure length")
  show "wf (measure length)" by simp
next
  fix s :: string and c r
  assume a: "dropWhile (\<lambda>c. \<not> is_space c) s = c # r"
  have "length (dropWhile is_space r) \<le> length r"
    by (rule length_dropWhile_le)
  also have "length r < length (c # r)" by simp
  also have "length (c # r) \<le> length s"
    unfolding a [symmetric] by (rule length_dropWhile_le)
  finally show "(dropWhile is_space r, s) \<in> measure length" by simp
qed

declare split_ws.simps [simp del]

subsection \<open>The audio backend\<close>

text \<open>
  The calls \<open>playSong\<close> makes on the Web Audio interface, in the words of the source.
  The number is that of the loop round (\<^verbatim>\<open>i / 2\<close>) whose oscillator and gain node the
  call is about.
\<close>

datatype call =
    NewAudioContext
  | CreateOscillator nat
  | CreateGain nat
  | SetFrequency nat jsnum
  | SetType nat string
  | ConnectOscGain nat
  | ConnectGainDestination nat
  | SetValueAtTime nat real jsnum
  | OscStart nat jsnum
  | OscStop nat jsnum

text \<open>
  The backend is not part of the program: it is a parameter. \<open>currentTime\<close> is what
  \<^verbatim>\<open>ctx.currentTime\<close> reads, \<open>throws\<close> says which calls raise, and what.
\<close>

record backend =
  currentTime :: real
  throws :: "call \<Rightarrow> exn option"

text \<open>
  What \<open>playSong\<close> does that can be observed: the messages shown with \<^verbatim>\<open>alert\<close> and
  the backend calls that returned, both in order.
\<close>

record world =
  alerts :: "string list"
  audio :: "call list"

text \<open>How a block of statements ends: normally, or by a thrown value.\<close>

datatype completion = Normal | Throw exn

definition alert :: "string \<Rightarrow> world \<Rightarrow> completion \<times> world" where
  "alert msg w = (Normal, w\<lparr>alerts := alerts w @ [msg]\<rparr>)"

text \<open>Backend calls made one after the other; the first that throws ends the block.\<close>

fun issue :: "backend \<Rightarrow> call list \<Rightarrow> world \<Rightarrow> completion \<times> world" where
  "issue bk [] w = (Normal, w)"
| "issue bk (c # cs) w =
     (case throws bk c of
        Some e \<Rightarrow> (Throw e, w)
      | None \<Rightarrow> issue bk cs (w\<lparr>audio := audio w @ [c]\<rparr>))"

text \<open>The backend calls of one round of the loop, from \<^verbatim>\<open>createOscillator\<close> to \<^verbatim>\<open>osc.stop\<close>.\<close>

definition tone_calls :: "nat \<Rightarrow> jsnum \<Rightarrow> jsnum \<Rightarrow> jsnum \<Rightarrow> call list" where
  "tone_calls k freq t dur =
     [CreateOscillator k, CreateGain k, SetFrequency k freq, SetType k ''square'',
      ConnectOscGain k, ConnectGainDestination k,
      SetValueAtTime k (1 / 10) t, OscStart k t, OscStop k (jadd t dur)]"

subsection \<open>The loop and the function\<close>

text \<open>
  The \<^verbatim>\<open>for\<close> loop over the parts, two at a time, with the round number \<open>k\<close> and the
  cursor \<open>t\<close>. The duration is parsed before the note is resolved. With an even number
  of parts the second equation is never reached; \<^verbatim>\<open>parts[i + 1]\<close> would be undefined
  there, which \<^verbatim>\<open>parseFloat\<close> turns into NaN.
\<close>

fun play_loop :: "backend \<Rightarrow> nat \<Rightarrow> jsnum \<Rightarrow> string list \<Rightarrow> world \<Rightarrow> completion \<times> world" where
  "play_loop bk k t [] w = (Normal, w)"
| "play_loop bk k t [note] w =
     (case noteToFrequency note of
        Inl e \<Rightarrow> (Throw e, w)
      | Inr freq \<Rightarrow>
          (case issue bk (tone_calls k freq t NaN) w of
             (Throw e, w') \<Rightarrow> (Throw e, w')
           | (Normal, w') \<Rightarrow> (Normal, w')))"
| "play_loop bk k t (note # d # rest) w =
     (let dur = parseFloat d
      in case noteToFrequency note of
           Inl e \<Rightarrow> (Throw e, w)
         | Inr freq \<Rightarrow>
             (case issue bk (tone_calls k freq t dur) w of
                (Throw e, w') \<Rightarrow> (Throw e, w')
              | (Normal, w') \<Rightarrow> play_loop bk (Suc k) (jadd t dur) rest w'))"

definition pairs_message :: string where
  "pairs_message = ''Data must be in \"NOTE DURATION\" pairs, e.g. C4 0.5 D4 0.5''"

text \<open>The body of the \<^verbatim>\<open>try\<close> block.\<close>

definition playSong_try :: "backend \<Rightarrow> string \<Rightarrow> world \<Rightarrow> completion \<times> world" where
  "playSong_try bk data w =
     (let parts = split_ws (trim data)
      in if length parts mod 2 \<noteq> 0 then alert pairs_message w
         else
           (case issue bk [NewAudioContext] w of
              (Throw e, w') \<Rightarrow> (Throw e, w')
            | (Normal, w') \<Rightarrow>
                (let start = Num (currentTime bk)
                 in play_loop bk 0 start parts w')))"

text \<open>The function: the \<^verbatim>\<open>try\<close> block and its \<^verbatim>\<open>catch\<close>.\<close>

definition playSong_from :: "backend \<Rightarrow> string \<Rightarrow> world \<Rightarrow> completion \<times> world" where
  "playSong_from bk data w =
     (case playSong_try bk data w of
        (Throw e, w') \<Rightarrow> alert (''Error playing song: '' @ exn_to_string e) w'
      | (Normal, w') \<Rightarrow> (Normal, w'))"

definition playSong :: "backend \<Rightarrow> string \<Rightarrow> completion \<times> world" where
  "playSong bk data = playSong_from bk data \<lparr>alerts = [], audio = []\<rparr>"

text \<open>A backend that accepts every call, with the clock at \<open>now\<close>.\<close>

definition permissive :: "real \<Rightarrow> backend" where
  "permissive now = \<lparr>currentTime = now, throws = (\<lambda>c. None)\<rparr>"

text \<open>
  A backend that rejects what the Web Audio interface says is rejected: a time that is
  negative (a RangeError) or not finite (a TypeError), and a frequency that is not finite.
\<close>

definition time_error :: "jsnum \<Rightarrow> exn option" where
  "time_error t =
     (case t of
        Num r \<Rightarrow> if r < 0 then Some (Exn ''RangeError'' []) else None
      | NaN \<Rightarrow> Some (Exn ''TypeError'' [])
      | PosInf \<Rightarrow> Some (Exn ''TypeError'' [])
      | NegInf \<Rightarrow> Some (Exn ''TypeError'' []))"

definition strict_throws :: "call \<Rightarrow> exn option" where
  "strict_throws c =
     (case c of
        SetFrequency k f \<Rightarrow> (case f of Num r \<Rightarrow> None | _ \<Rightarrow> Some (Exn ''TypeError'' []))
      | SetValueAtTime k v t \<Rightarrow> time_error t
      | OscStart k t \<Rightarrow> time_error t
      | OscStop k t \<Rightarrow> time_error t
      | _ \<Rightarrow> None)"

definition strict :: "real \<Rightarrow> backend" where
  "strict now = \<lparr>currentTime = now, throws = strict_throws\<rparr>"

section \<open>The notions of the specification\<close>

text \<open>
  The note grammar \<^verbatim>\<open>[A-G](#|b)?[0-9]+\<close> as a language: a letter, an accidental or
  nothing, and at least one digit.
\<close>

definition note_grammar :: "string \<Rightarrow> bool" where
  "note_grammar tok \<longleftrightarrow>
     (\<exists>l a ds. tok = l # a @ ds \<and> l \<in> set ''ABCDEFG'' \<and> (a = [] \<or> a = ''#'' \<or> a = ''b'')
        \<and> ds \<noteq> [] \<and> list_all is_digit ds)"

text \<open>The base offsets {C:0, D:2, E:4, F:5, G:7, A:9, B:11} and the semitone index.\<close>

definition base_offset :: "char \<Rightarrow> int" where
  "base_offset l =
     (if l = CHR ''C'' then 0 else if l = CHR ''D'' then 2 else if l = CHR ''E'' then 4
      else if l = CHR ''F'' then 5 else if l = CHR ''G'' then 7 else if l = CHR ''A'' then 9
      else 11)"

definition semitone_index :: "char \<Rightarrow> string \<Rightarrow> string \<Rightarrow> int" where
  "semitone_index l a ds =
     (int (decimal ds) + 1) * 12 + base_offset l
       + (if a = ''#'' then 1 else if a = ''b'' then - 1 else 0)"

text \<open>
  A valid song: an even number of tokens, every note token matched by the grammar, every
  duration token parsed as a finite number that is not negative.
\<close>

definition valid_note :: "string \<Rightarrow> bool" where
  "valid_note tok \<longleftrightarrow> note_match tok \<noteq> None"

definition valid_duration :: "string \<Rightarrow> bool" where
  "valid_duration tok \<longleftrightarrow> (case parseFloat tok of Num r \<Rightarrow> 0 \<le> r | _ \<Rightarrow> False)"



text \<open>An even number of tokens with every note token valid, whatever the durations.\<close>

fun notes_valid :: "string list \<Rightarrow> bool" where
  "notes_valid [] = True"
| "notes_valid [note] = False"
| "notes_valid (note # d # rest) = (valid_note note \<and> notes_valid rest)"

definition accepts_all :: "backend \<Rightarrow> bool" where
  "accepts_all bk \<longleftrightarrow> (\<forall>c. throws bk c = None)"

text \<open>
  The events of a run, read off the backend calls: the frequencies set, the start times
  and the stop times, each in the order of the calls.
\<close>

definition freqs :: "call list \<Rightarrow> jsnum list" where
  "freqs tr = List.map_filter (\<lambda>c. case c of SetFrequency k f \<Rightarrow> Some f | _ \<Rightarrow> None) tr"

definition starts :: "call list \<Rightarrow> jsnum list" where
  "starts tr = List.map_filter (\<lambda>c. case c of OscStart k t \<Rightarrow> Some t | _ \<Rightarrow> None) tr"

definition stops :: "call list \<Rightarrow> jsnum list" where
  "stops tr = List.map_filter (\<lambda>c. case c of OscStop k t \<Rightarrow> Some t | _ \<Rightarrow> None) tr"

text \<open>
  The backend calls of the rounds of the loop over the given parts, when nothing throws:
  one block per pair, the cursor moved on by each duration.
\<close>

fun song_calls :: "nat \<Rightarrow> jsnum \<Rightarrow> string list \<Rightarrow> call list" where
  "song_calls k t (note # d # rest) =
     (case noteToFrequency note of
        Inl e \<Rightarrow> []
      | Inr freq \<Rightarrow>
          tone_calls k freq t (parseFloat d) @ song_calls (Suc k) (jadd t (parseFloat d)) rest)"
| "song_calls k t [note] = []"
| "song_calls k t [] = []"

section \<open>Evaluation\<close>

lemmas token_defs = trim_def is_space_def is_digit_def decimal_def digit_value_def

lemmas note_defs = noteToFrequency_def midi_of_def semitones_def parseInt10_def

lemmas float_defs = parseFloat_def exponent_part_def

lemmas song_defs = playSong_def playSong_from_def playSong_try_def alert_def tone_calls_def
  pairs_message_def

subsection \<open>The range of the doubles\<close>

lemma overflow_threshold_big: "2 ^ 1010 < overflow_threshold"
proof -
  have "(2::real) ^ 1024 - 2 ^ 970 = 2 ^ 970 * (2 ^ 54 - 1)"
    by (simp add: algebra_simps flip: power_add)
  also have "(2::real) ^ 970 * 2 ^ 40 < 2 ^ 970 * (2 ^ 54 - 1)"
    by (intro mult_strict_left_mono) simp_all
  finally show ?thesis
    by (simp add: overflow_threshold_def flip: power_add)
qed

lemma overflow_threshold_pos: "0 < overflow_threshold"
proof -
  have "(0::real) < 2 ^ 1010" by simp
  from this overflow_threshold_big show ?thesis by (rule less_trans)
qed

lemma underflow_threshold_small: "underflow_threshold < 1 / 2 ^ 64"
  unfolding underflow_threshold_def
  by (intro divide_strict_left_mono power_strict_increasing) simp_all

lemma underflow_threshold_pos: "0 < underflow_threshold"
  by (simp add: underflow_threshold_def)

text \<open>A real of moderate size is its own double.\<close>

lemma to_double_moderate:
  assumes "1 / 2 ^ 64 \<le> \<bar>r\<bar>" and "\<bar>r\<bar> \<le> 2 ^ 1010"
  shows "to_double r = Num r"
proof -
  have a: "\<not> overflow_threshold \<le> r" "\<not> r \<le> - overflow_threshold"
    using assms(2) overflow_threshold_big by linarith+
  have b: "\<not> \<bar>r\<bar> \<le> underflow_threshold"
    using assms(1) underflow_threshold_small by linarith
  show ?thesis
    by (simp only: to_double_def a b if_False)
qed

lemma to_double_0: "to_double 0 = Num 0"
  using overflow_threshold_pos underflow_threshold_pos
  by (simp add: to_double_def)

lemma to_double_overflow: "2 ^ 1024 \<le> r \<Longrightarrow> to_double r = PosInf"
  by (simp add: to_double_def overflow_threshold_def)


section \<open>The note resolver\<close>

subsection \<open>The match and the grammar\<close>

lemma digit_not_space: "is_digit c \<Longrightarrow> \<not> is_space c"
  by (auto simp: is_digit_def is_space_def)

lemma digit_not_special:
  "is_digit c \<Longrightarrow> c \<noteq> CHR ''#'' \<and> c \<noteq> CHR ''b'' \<and> c \<noteq> CHR ''+'' \<and> c \<noteq> CHR ''-''
     \<and> c \<noteq> CHR ''.'' \<and> c \<noteq> CHR ''e'' \<and> c \<noteq> CHR ''E'' \<and> c \<noteq> CHR ''I''"
  by (auto simp: is_digit_def)

lemma letter_not_space: "l \<in> set ''ABCDEFG'' \<Longrightarrow> \<not> is_space l"
  by (auto simp: is_space_def)

lemma accidental_not_digit: "\<not> is_digit CHR ''#''" "\<not> is_digit CHR ''b''"
  by (simp_all add: is_digit_def)

lemma note_match_plain:
  assumes "l \<in> set ''ABCDEFG''" "ds \<noteq> []" "list_all is_digit ds"
  shows "note_match (l # ds) = Some (l, None, ds)"
proof (cases ds)
  case Nil
  with assms show ?thesis by simp
next
  case (Cons d ds')
  with assms have "is_digit d" by simp
  then have "d \<noteq> CHR ''#''" "d \<noteq> CHR ''b''"
    using digit_not_special by blast+
  with assms Cons show ?thesis by simp
qed

lemma note_match_accidental:
  assumes "l \<in> set ''ABCDEFG''" "a = CHR ''#'' \<or> a = CHR ''b''" "ds \<noteq> []" "list_all is_digit ds"
  shows "note_match (l # a # ds) = Some (l, Some a, ds)"
  using assms by simp

lemma note_match_SomeD:
  assumes "note_match tok = Some (p, acc, ds)"
  shows "p \<in> set ''ABCDEFG'' \<and> ds \<noteq> [] \<and> list_all is_digit ds
     \<and> ((acc = None \<and> tok = p # ds)
        \<or> (acc = Some CHR ''#'' \<and> tok = p # ''#'' @ ds)
        \<or> (acc = Some CHR ''b'' \<and> tok = p # ''b'' @ ds))"
proof (cases tok)
  case Nil
  with assms show ?thesis by simp
next
  case (Cons q rest)
  note tok = Cons
  show ?thesis
  proof (cases rest)
    case Nil
    with assms tok show ?thesis by (simp split: if_splits)
  next
    case (Cons a r)
    with assms tok show ?thesis
      by (auto split: if_splits)
  qed
qed

lemma note_match_grammar: "note_grammar tok \<longleftrightarrow> note_match tok \<noteq> None"
proof (rule iffI [rotated])
  assume "note_match tok \<noteq> None"
  then obtain p acc ds where "note_match tok = Some (p, acc, ds)"
    by (cases "note_match tok") auto
  from note_match_SomeD [OF this] show "note_grammar tok"
    unfolding note_grammar_def by (metis append_Nil)
next
  assume "note_grammar tok"
  then obtain l a ds where g: "tok = l # a @ ds" "l \<in> set ''ABCDEFG''"
      "a = [] \<or> a = ''#'' \<or> a = ''b''" "ds \<noteq> []" "list_all is_digit ds"
    unfolding note_grammar_def by blast
  from g(3) show "note_match tok \<noteq> None"
  proof (elim disjE)
    assume "a = []"
    with g note_match_plain [of l ds] show ?thesis by simp
  next
    assume "a = ''#''"
    with g note_match_accidental [of l "CHR ''#''" ds] show ?thesis by simp
  next
    assume "a = ''b''"
    with g note_match_accidental [of l "CHR ''b''" ds] show ?thesis by simp
  qed
qed

lemma parseInt10_digits:
  assumes "ds \<noteq> []" "list_all is_digit ds"
  shows "parseInt10 ds = Some (int (decimal ds))"
proof -
  from assms have d: "is_digit (hd ds)" by (cases ds) auto
  have 1: "dropWhile is_space ds = ds"
    using d digit_not_space by (simp add: dropWhile_eq_self_iff)
  have 2: "hd ds \<noteq> CHR ''+''" "hd ds \<noteq> CHR ''-''"
    using d digit_not_special by blast+
  have 3: "takeWhile is_digit ds = ds"
    using assms by (simp add: takeWhile_eq_all_conv list_all_iff)
  show ?thesis
    using assms(1) by (simp add: parseInt10_def 1 2 3)
qed

lemma semitones_base: "l \<in> set ''ABCDEFG'' \<Longrightarrow> map_of semitones l = Some (base_offset l)"
  by (auto simp: semitones_def base_offset_def)

lemma midi_of_valid:
  assumes "l \<in> set ''ABCDEFG''" "ds \<noteq> []" "list_all is_digit ds"
  shows "midi_of (l, None, ds) = Some (semitone_index l [] ds)"
    and "midi_of (l, Some CHR ''#'', ds) = Some (semitone_index l ''#'' ds)"
    and "midi_of (l, Some CHR ''b'', ds) = Some (semitone_index l ''b'' ds)"
  using assms
  by (simp_all add: midi_of_def semitones_base parseInt10_digits semitone_index_def)

lemma noteToFrequency_valid:
  assumes "l \<in> set ''ABCDEFG''" "a = [] \<or> a = ''#'' \<or> a = ''b''" "ds \<noteq> []" "list_all is_digit ds"
  shows "noteToFrequency (l # a @ ds)
     = Inr (to_double (440 * 2 powr (real_of_int (semitone_index l a ds - 69) / 12)))"
  using assms(2)
proof (elim disjE)
  assume "a = []"
  then show ?thesis
    using assms note_match_plain [of l ds] midi_of_valid(1) [of l ds]
    by (simp add: noteToFrequency_def)
next
  assume "a = ''#''"
  then show ?thesis
    using assms note_match_accidental [of l "CHR ''#''" ds] midi_of_valid(2) [of l ds]
    by (simp add: noteToFrequency_def)
next
  assume "a = ''b''"
  then show ?thesis
    using assms note_match_accidental [of l "CHR ''b''" ds] midi_of_valid(3) [of l ds]
    by (simp add: noteToFrequency_def)
qed

lemma noteToFrequency_Inl_iff:
  "(\<exists>e. noteToFrequency tok = Inl e) \<longleftrightarrow> note_match tok = None"
  by (auto simp: noteToFrequency_def split: option.splits)

subsection \<open>Frequencies and the range of the doubles\<close>

lemma two_powr_nat: "(2::real) powr real n = 2 ^ n"
  by (simp add: powr_realpow)

lemma frequency_bounds:
  assumes "- 72 \<le> d" and "d \<le> 12000"
  shows "1 / 2 ^ 64 \<le> \<bar>440 * 2 powr (real_of_int d / 12)\<bar>"
    and "\<bar>440 * 2 powr (real_of_int d / 12)\<bar> \<le> 2 ^ 1010"
proof -
  let ?x = "real_of_int d / 12"
  have lo: "- real 6 \<le> ?x" and hi: "?x \<le> real 1000"
    using assms by simp_all
  have "(2::real) powr (- real 6) \<le> 2 powr ?x"
    using lo by (intro powr_mono) simp_all
  then have 1: "1 / 2 ^ 6 \<le> 2 powr ?x"
    by (simp only: powr_minus two_powr_nat inverse_eq_divide)
  have "(2::real) powr ?x \<le> 2 powr real 1000"
    using hi by (intro powr_mono) simp_all
  then have 2: "2 powr ?x \<le> 2 ^ 1000"
    by (simp only: two_powr_nat)
  have pos: "0 < 440 * 2 powr ?x" by simp
  have "(1::real) / 2 ^ 64 \<le> 440 * (1 / 2 ^ 6)" by simp
  also have "\<dots> \<le> 440 * 2 powr ?x"
    using 1 by (intro mult_left_mono) simp_all
  finally show "1 / 2 ^ 64 \<le> \<bar>440 * 2 powr ?x\<bar>"
    using pos by (simp only: abs_of_pos)
  have "440 * 2 powr ?x \<le> 440 * (2::real) ^ 1000"
    using 2 by (intro mult_left_mono) simp_all
  also have "\<dots> \<le> 2 ^ 10 * 2 ^ 1000"
    by (intro mult_right_mono) simp_all
  also have "\<dots> = (2::real) ^ 1010"
    by (simp flip: power_add)
  finally show "\<bar>440 * 2 powr ?x\<bar> \<le> 2 ^ 1010"
    using pos by (simp only: abs_of_pos)
qed

lemma to_double_frequency:
  assumes "- 72 \<le> d" and "d \<le> 12000"
  shows "to_double (440 * 2 powr (real_of_int d / 12)) = Num (440 * 2 powr (real_of_int d / 12))"
  by (rule to_double_moderate) (rule frequency_bounds [OF assms])+

lemma semitone_index_lower:
  assumes "l \<in> set ''ABCDEFG''"
  shows "11 \<le> semitone_index l a ds"
proof -
  have "0 \<le> base_offset l" by (simp add: base_offset_def)
  moreover have "0 \<le> int (decimal ds)" by simp
  ultimately show ?thesis
    unfolding semitone_index_def by (simp split: if_splits)
qed

lemma semitone_index_upper:
  assumes "decimal ds \<le> 1000"
  shows "semitone_index l a ds \<le> 12024"
proof -
  have "base_offset l \<le> 11" by (simp add: base_offset_def)
  moreover have "int (decimal ds) \<le> 1000" using assms by simp
  ultimately show ?thesis
    unfolding semitone_index_def by (simp split: if_splits)
qed

text \<open>The notes used in the examples.\<close>

lemma noteToFrequency_note:
  assumes "l \<in> set ''ABCDEFG''" and "a = [] \<or> a = ''#'' \<or> a = ''b''"
    and "ds \<noteq> []" and "list_all is_digit ds" and "decimal ds \<le> 1000"
  shows "noteToFrequency (l # a @ ds)
     = Inr (Num (440 * 2 powr (real_of_int (semitone_index l a ds - 69) / 12)))"
proof -
  have "- 72 \<le> semitone_index l a ds - 69"
    using semitone_index_lower [OF assms(1), of a ds] by simp
  moreover have "semitone_index l a ds - 69 \<le> 12000"
    using semitone_index_upper [OF assms(5), of l a] by simp
  ultimately show ?thesis
    using noteToFrequency_valid [OF assms(1-4)] by (simp only: to_double_frequency)
qed

lemma noteToFrequency_C4:
  "noteToFrequency ''C4'' = Inr (Num (440 * 2 powr (real_of_int (60 - 69) / 12)))"
proof -
  have "noteToFrequency (CHR ''C'' # [] @ ''4'')
      = Inr (Num (440 * 2 powr (real_of_int (semitone_index CHR ''C'' [] ''4'' - 69) / 12)))"
    by (rule noteToFrequency_note) (simp_all add: is_digit_def decimal_def digit_value_def)
  then show ?thesis
    by (simp add: semitone_index_def base_offset_def decimal_def digit_value_def)
qed

lemma noteToFrequency_D4:
  "noteToFrequency ''D4'' = Inr (Num (440 * 2 powr (real_of_int (62 - 69) / 12)))"
proof -
  have "noteToFrequency (CHR ''D'' # [] @ ''4'')
      = Inr (Num (440 * 2 powr (real_of_int (semitone_index CHR ''D'' [] ''4'' - 69) / 12)))"
    by (rule noteToFrequency_note) (simp_all add: is_digit_def decimal_def digit_value_def)
  then show ?thesis
    by (simp add: semitone_index_def base_offset_def decimal_def digit_value_def)
qed

subsection \<open>Claims about noteToFrequency\<close>

text \<open>
  C2, as stated, fails: the result is not the value of the formula for every token of the
  grammar. For C1021 the semitone index is 12264, and \<open>440 * 2 powr (12195 / 12)\<close> is
  beyond the range of the doubles: the result is Infinity.
\<close>

theorem noteToFrequency_overflow_counterexample:
  "noteToFrequency ''C1021'' = Inr PosInf"
proof -
  have v: "noteToFrequency (CHR ''C'' # [] @ ''1021'')
      = Inr (to_double (440 * 2 powr (real_of_int (semitone_index CHR ''C'' [] ''1021'' - 69) / 12)))"
    by (rule noteToFrequency_valid) (simp_all add: is_digit_def)
  have s: "semitone_index CHR ''C'' [] ''1021'' - 69 = 12195"
    by (simp add: semitone_index_def base_offset_def decimal_def digit_value_def)
  have "(2::real) powr real 1016 \<le> 2 powr (real_of_int 12195 / 12)"
    by (intro powr_mono) simp_all
  then have "(2::real) ^ 1016 \<le> 2 powr (real_of_int 12195 / 12)"
    by (simp only: two_powr_nat)
  then have "2 ^ 8 * (2::real) ^ 1016 \<le> 440 * 2 powr (real_of_int 12195 / 12)"
    by (intro mult_mono) simp_all
  then have "(2::real) ^ 1024 \<le> 440 * 2 powr (real_of_int 12195 / 12)"
    by (simp flip: power_add)
  then have "to_double (440 * 2 powr (real_of_int 12195 / 12)) = PosInf"
    by (rule to_double_overflow)
  with v s show ?thesis by simp
qed

text \<open>
  C2, amended. For every token of the grammar (a letter A to G, at most one accidental, at
  least one digit), let \<open>f\<close> be \<open>440 * 2 powr ((semitone - 69) / 12)\<close>, where the
  semitone index is \<open>(octave + 1) * 12\<close> plus the base offset of the letter, plus one
  for a sharp, minus one for a flat. \<open>f\<close> is positive. When \<open>f\<close> is below the overflow
  threshold of the doubles, as it is for every octave up to 1000, \<open>noteToFrequency\<close>
  returns \<open>f\<close>; otherwise it returns Infinity. A4 gives 440.
\<close>

theorem noteToFrequency_formula:
  assumes "l \<in> set ''ABCDEFG''" and "a = [] \<or> a = ''#'' \<or> a = ''b''"
    and "ds \<noteq> []" and "list_all is_digit ds"
    and "f = 440 * 2 powr (real_of_int (semitone_index l a ds - 69) / 12)"
  shows "0 < f
     \<and> (f < overflow_threshold \<longrightarrow> noteToFrequency (l # a @ ds) = Inr (Num f))
     \<and> (overflow_threshold \<le> f \<longrightarrow> noteToFrequency (l # a @ ds) = Inr PosInf)
     \<and> (decimal ds \<le> 1000 \<longrightarrow> f < overflow_threshold)
     \<and> noteToFrequency ''A4'' = Inr (Num 440)"
proof (intro conjI impI)
  note v = noteToFrequency_valid [OF assms(1-4), folded assms(5)]
  show pos: "0 < f" by (simp add: assms(5))
  have "- 72 \<le> semitone_index l a ds - 69"
    using semitone_index_lower [OF assms(1), of a ds] by simp
  then have "- real 6 \<le> real_of_int (semitone_index l a ds - 69) / 12"
    by simp
  then have "(2::real) powr (- real 6) \<le> 2 powr (real_of_int (semitone_index l a ds - 69) / 12)"
    by (intro powr_mono) simp_all
  then have "1 / 2 ^ 6 \<le> 2 powr (real_of_int (semitone_index l a ds - 69) / 12)"
    by (simp only: powr_minus two_powr_nat inverse_eq_divide)
  then have "440 * (1 / 2 ^ 6) \<le> f"
    unfolding assms(5) by (intro mult_left_mono) simp_all
  moreover have "underflow_threshold < 440 * (1 / 2 ^ 6)"
    using underflow_threshold_small by simp
  ultimately have up: "\<not> \<bar>f\<bar> \<le> underflow_threshold"
    using pos by linarith
  have neg: "\<not> f \<le> - overflow_threshold"
    using pos overflow_threshold_pos by linarith
  show "noteToFrequency (l # a @ ds) = Inr (Num f)" if "f < overflow_threshold"
    using that up neg by (simp add: v to_double_def)
  show "noteToFrequency (l # a @ ds) = Inr PosInf" if "overflow_threshold \<le> f"
    using that by (simp add: v to_double_def)
  show "f < overflow_threshold" if "decimal ds \<le> 1000"
  proof -
    have "semitone_index l a ds - 69 \<le> 12000"
      using semitone_index_upper [OF that, of l a] by simp
    moreover have "- 72 \<le> semitone_index l a ds - 69"
      using semitone_index_lower [OF assms(1), of a ds] by simp
    ultimately have "\<bar>f\<bar> \<le> 2 ^ 1010"
      unfolding assms(5) by (intro frequency_bounds(2))
    then have "f \<le> 2 ^ 1010" by simp
    from this overflow_threshold_big show ?thesis by (rule le_less_trans)
  qed
  have "noteToFrequency (CHR ''A'' # [] @ ''4'')
      = Inr (Num (440 * 2 powr (real_of_int (semitone_index CHR ''A'' [] ''4'' - 69) / 12)))"
    by (rule noteToFrequency_note) (simp_all add: is_digit_def decimal_def digit_value_def)
  then show "noteToFrequency ''A4'' = Inr (Num 440)"
    by (simp add: semitone_index_def base_offset_def decimal_def digit_value_def)
qed

theorem noteToFrequency_formula_witness:
  "CHR ''C'' \<in> set ''ABCDEFG'' \<and> ''4'' \<noteq> [] \<and> list_all is_digit ''4''
   \<and> semitone_index CHR ''C'' ''#'' ''4'' = 61 \<and> decimal ''4'' \<le> 1000
   \<and> 440 * 2 powr (real_of_int (61 - 69) / 12) < overflow_threshold
   \<and> noteToFrequency ''C#4'' = Inr (Num (440 * 2 powr (real_of_int (61 - 69) / 12)))
   \<and> noteToFrequency ''A4'' = Inr (Num 440)"
proof -
  have h: "CHR ''C'' \<in> set ''ABCDEFG''" "''#'' = [] \<or> ''#'' = ''#'' \<or> ''#'' = ''b''"
    "''4'' \<noteq> []" "list_all is_digit ''4''"
    by (simp_all add: is_digit_def)
  have s: "semitone_index CHR ''C'' ''#'' ''4'' = 61"
    by (simp add: semitone_index_def base_offset_def decimal_def digit_value_def)
  have d: "decimal ''4'' \<le> 1000"
    by (simp add: decimal_def digit_value_def)
  have f: "440 * 2 powr (real_of_int (61 - 69) / 12)
      = 440 * 2 powr (real_of_int (semitone_index CHR ''C'' ''#'' ''4'' - 69) / 12)"
    by (simp only: s)
  from noteToFrequency_formula [OF h f] d
  have "440 * 2 powr (real_of_int (61 - 69) / 12) < overflow_threshold"
    and "noteToFrequency (CHR ''C'' # ''#'' @ ''4'')
      = Inr (Num (440 * 2 powr (real_of_int (61 - 69) / 12)))"
    and "noteToFrequency ''A4'' = Inr (Num 440)"
    by blast+
  with h s d show ?thesis by simp
qed

text \<open>
  C7. \<open>noteToFrequency\<close> throws, and then the error \<^verbatim>\<open>Invalid note\<close> with the token,
  exactly when the token is not of the grammar \<^verbatim>\<open>[A-G](#|b)?[0-9]+\<close>. It throws on the
  empty token, on H4, on C##4, on C alone, on a lowercase letter and on two accidentals.
\<close>

theorem noteToFrequency_fails_iff_not_grammar:
  "((\<exists>e. noteToFrequency tok = Inl e) \<longleftrightarrow> \<not> note_grammar tok)
   \<and> (noteToFrequency tok = Inl (Exn ''Error'' (''Invalid note: '' @ tok)) \<longleftrightarrow> \<not> note_grammar tok)
   \<and> noteToFrequency [] = Inl (Exn ''Error'' ''Invalid note: '')
   \<and> noteToFrequency ''H4'' = Inl (Exn ''Error'' ''Invalid note: H4'')
   \<and> noteToFrequency ''C##4'' = Inl (Exn ''Error'' ''Invalid note: C##4'')
   \<and> noteToFrequency ''C'' = Inl (Exn ''Error'' ''Invalid note: C'')
   \<and> noteToFrequency ''c4'' = Inl (Exn ''Error'' ''Invalid note: c4'')
   \<and> noteToFrequency ''C#b4'' = Inl (Exn ''Error'' ''Invalid note: C#b4'')"
proof -
  have 1: "(\<exists>e. noteToFrequency tok = Inl e) \<longleftrightarrow> \<not> note_grammar tok"
    by (simp only: noteToFrequency_Inl_iff note_match_grammar not_not)
  have 2: "noteToFrequency tok = Inl (Exn ''Error'' (''Invalid note: '' @ tok)) \<longleftrightarrow> \<not> note_grammar tok"
    by (simp add: note_match_grammar noteToFrequency_def split: option.splits)
  have 3: "noteToFrequency [] = Inl (Exn ''Error'' ''Invalid note: '')"
    "noteToFrequency ''H4'' = Inl (Exn ''Error'' ''Invalid note: H4'')"
    "noteToFrequency ''C##4'' = Inl (Exn ''Error'' ''Invalid note: C##4'')"
    "noteToFrequency ''C'' = Inl (Exn ''Error'' ''Invalid note: C'')"
    "noteToFrequency ''c4'' = Inl (Exn ''Error'' ''Invalid note: c4'')"
    "noteToFrequency ''C#b4'' = Inl (Exn ''Error'' ''Invalid note: C#b4'')"
    by (simp_all add: noteToFrequency_def is_digit_def)
  from 1 2 3 show ?thesis by blast
qed

theorem noteToFrequency_fails_iff_not_grammar_witness:
  "\<not> note_grammar ''Hb4'' \<and> note_grammar ''Bb5''
   \<and> noteToFrequency ''Hb4'' = Inl (Exn ''Error'' ''Invalid note: Hb4'')
   \<and> (\<forall>e. noteToFrequency ''Bb5'' \<noteq> Inl e)"
proof -
  have a: "noteToFrequency ''Hb4'' = Inl (Exn ''Error'' (''Invalid note: '' @ ''Hb4''))"
    by (simp add: noteToFrequency_def)
  have b: "\<not> (\<exists>e. noteToFrequency ''Bb5'' = Inl e)"
    by (simp add: note_defs token_defs)
  from a b noteToFrequency_fails_iff_not_grammar [of "''Hb4''"]
    noteToFrequency_fails_iff_not_grammar [of "''Bb5''"]
  show ?thesis by simp
qed

text \<open>
  C8. Two tokens of the grammar with the same semitone index have the same frequency; so
  have C#4 and Db4.
\<close>

theorem enharmonic_equivalence:
  assumes "l \<in> set ''ABCDEFG''" and "a = [] \<or> a = ''#'' \<or> a = ''b''"
    and "ds \<noteq> []" and "list_all is_digit ds"
    and "l' \<in> set ''ABCDEFG''" and "a' = [] \<or> a' = ''#'' \<or> a' = ''b''"
    and "ds' \<noteq> []" and "list_all is_digit ds'"
    and "semitone_index l a ds = semitone_index l' a' ds'"
  shows "noteToFrequency (l # a @ ds) = noteToFrequency (l' # a' @ ds')
         \<and> noteToFrequency ''C#4'' = noteToFrequency ''Db4''"
proof
  show "noteToFrequency (l # a @ ds) = noteToFrequency (l' # a' @ ds')"
    using noteToFrequency_valid [OF assms(1-4)] noteToFrequency_valid [OF assms(5-8)] assms(9)
    by simp
next
  show "noteToFrequency ''C#4'' = noteToFrequency ''Db4''"
    by (simp add: note_defs token_defs)
qed

theorem enharmonic_equivalence_witness:
  "semitone_index CHR ''E'' ''#'' ''3'' = semitone_index CHR ''F'' [] ''3''
   \<and> noteToFrequency ''E#3'' = noteToFrequency ''F3''
   \<and> noteToFrequency ''C#4'' = noteToFrequency ''Db4''"
proof -
  have s: "semitone_index CHR ''E'' ''#'' ''3'' = semitone_index CHR ''F'' [] ''3''"
    by (simp add: semitone_index_def base_offset_def)
  have "noteToFrequency (CHR ''E'' # ''#'' @ ''3'') = noteToFrequency (CHR ''F'' # [] @ ''3'')
        \<and> noteToFrequency ''C#4'' = noteToFrequency ''Db4''"
    by (rule enharmonic_equivalence) (simp_all add: is_digit_def s)
  with s show ?thesis by simp
qed


section \<open>The scheduler\<close>

subsection \<open>Runs on a backend that accepts every call\<close>

lemma issue_accepting:
  "accepts_all bk \<Longrightarrow> issue bk cs w = (Normal, w\<lparr>audio := audio w @ cs\<rparr>)"
  by (induction cs arbitrary: w) (simp_all add: accepts_all_def)

lemma valid_note_Inr: "valid_note note \<Longrightarrow> \<exists>f. noteToFrequency note = Inr f"
  by (auto simp: valid_note_def noteToFrequency_def split: option.splits)

lemma invalid_note_Inl:
  "\<not> valid_note note \<Longrightarrow> noteToFrequency note = Inl (Exn ''Error'' (''Invalid note: '' @ note))"
  by (cases "note_match note") (simp_all add: valid_note_def noteToFrequency_def)

lemma play_loop_accepting:
  "accepts_all bk \<Longrightarrow> notes_valid parts \<Longrightarrow>
   play_loop bk k t parts w = (Normal, w\<lparr>audio := audio w @ song_calls k t parts\<rparr>)"
proof (induction parts arbitrary: k t w rule: notes_valid.induct)
  case 1
  then show ?case by simp
next
  case (2 n)
  then show ?case by simp
next
  case (3 n d rest)
  from "3.prems" obtain f where f: "noteToFrequency n = Inr f"
    using valid_note_Inr by auto
  from "3.prems" have rest: "notes_valid rest" by simp
  show ?case
    by (simp add: Let_def f issue_accepting [OF "3.prems"(1)] "3.IH" [OF "3.prems"(1) rest])
qed

lemma play_loop_invalid_note:
  "accepts_all bk \<Longrightarrow> notes_valid pre \<Longrightarrow> \<not> valid_note bad \<Longrightarrow>
   play_loop bk k t (pre @ bad # d # post) w
     = (Throw (Exn ''Error'' (''Invalid note: '' @ bad)), w\<lparr>audio := audio w @ song_calls k t pre\<rparr>)"
proof (induction pre arbitrary: k t w rule: notes_valid.induct)
  case 1
  then show ?case by (simp add: invalid_note_Inl)
next
  case (2 n)
  then show ?case by simp
next
  case (3 n d' rest)
  from "3.prems" obtain f where f: "noteToFrequency n = Inr f"
    using valid_note_Inr by auto
  from "3.prems" have rest: "notes_valid rest" by simp
  show ?case
    by (simp add: Let_def f issue_accepting [OF "3.prems"(1)]
        "3.IH" [OF "3.prems"(1) rest "3.prems"(3)])
qed

lemma notes_valid_even: "notes_valid parts \<Longrightarrow> even (length parts)"
  by (induction parts rule: notes_valid.induct) simp_all


lemma playSong_odd:
  "odd (length (split_ws (trim data))) \<Longrightarrow>
   playSong bk data = (Normal, \<lparr>alerts = [pairs_message], audio = []\<rparr>)"
  by (simp add: playSong_def playSong_from_def playSong_try_def alert_def odd_iff_mod_2_eq_one)

lemma playSong_accepting:
  assumes "accepts_all bk" and "notes_valid (split_ws (trim data))"
  shows "playSong bk data
    = (Normal, \<lparr>alerts = [],
         audio = NewAudioContext # song_calls 0 (Num (currentTime bk)) (split_ws (trim data))\<rparr>)"
proof -
  have "even (length (split_ws (trim data)))"
    using assms(2) by (rule notes_valid_even)
  then show ?thesis
    by (simp add: playSong_def playSong_from_def playSong_try_def
        issue_accepting [OF assms(1)] play_loop_accepting [OF assms] del: issue.simps)
qed

lemma playSong_invalid_note:
  assumes "accepts_all bk" and "split_ws (trim data) = pre @ bad # d # post"
    and "notes_valid pre" and "even (length post)" and "\<not> valid_note bad"
  shows "playSong bk data
    = (Normal, \<lparr>alerts = [''Error playing song: Error: Invalid note: '' @ bad],
         audio = NewAudioContext # song_calls 0 (Num (currentTime bk)) pre\<rparr>)"
proof -
  have "even (length pre)"
    using assms(3) by (rule notes_valid_even)
  with assms(4) have "even (length (pre @ bad # d # post))" by simp
  then show ?thesis
    by (simp add: playSong_def playSong_from_def playSong_try_def alert_def assms(2)
        issue_accepting [OF assms(1)] play_loop_invalid_note [OF assms(1,3,5)]
        del: play_loop.simps issue.simps)
qed



lemma starts_tone_calls: "starts (tone_calls k f t d @ tr) = t # starts tr"
  by (simp add: starts_def tone_calls_def map_filter_simps)

lemma stops_tone_calls: "stops (tone_calls k f t d @ tr) = jadd t d # stops tr"
  by (simp add: stops_def tone_calls_def map_filter_simps)

lemma reads_NewAudioContext:
  "freqs (NewAudioContext # tr) = freqs tr"
  "starts (NewAudioContext # tr) = starts tr"
  "stops (NewAudioContext # tr) = stops tr"
  by (simp_all add: freqs_def starts_def stops_def map_filter_simps)

lemma reads_Nil: "freqs [] = []" "starts [] = []" "stops [] = []"
  by (simp_all add: freqs_def starts_def stops_def map_filter_simps)


lemma song_calls_reads:
  "notes_valid parts \<Longrightarrow>
   length (starts (song_calls k t parts)) = length parts div 2
   \<and> length (stops (song_calls k t parts)) = length parts div 2
   \<and> (parts \<noteq> [] \<longrightarrow> starts (song_calls k t parts) ! 0 = t)
   \<and> (\<forall>i<length parts div 2.
         stops (song_calls k t parts) ! i
           = jadd (starts (song_calls k t parts) ! i) (parseFloat (parts ! (2 * i + 1))))
   \<and> (\<forall>i. Suc i < length parts div 2 \<longrightarrow>
         starts (song_calls k t parts) ! Suc i
           = jadd (starts (song_calls k t parts) ! i) (parseFloat (parts ! (2 * i + 1))))"
proof (induction parts arbitrary: k t rule: notes_valid.induct)
  case 1
  then show ?case by (simp add: reads_Nil)
next
  case (2 n)
  then show ?case by simp
next
  case (3 n d rest)
  from "3.prems" have v: "valid_note n" "notes_valid rest" by simp_all
  from v(1) obtain f where f: "noteToFrequency n = Inr f"
    using valid_note_Inr by auto
  let ?t' = "jadd t (parseFloat d)"
  note IH = "3.IH" [OF v(2), of "Suc k" ?t']
  have st: "starts (song_calls k t (n # d # rest)) = t # starts (song_calls (Suc k) ?t' rest)"
    by (simp add: f starts_tone_calls)
  have sp: "stops (song_calls k t (n # d # rest)) = ?t' # stops (song_calls (Suc k) ?t' rest)"
    by (simp add: f stops_tone_calls)
  have a: "\<forall>i<length (n # d # rest) div 2.
         stops (song_calls k t (n # d # rest)) ! i
           = jadd (starts (song_calls k t (n # d # rest)) ! i)
               (parseFloat ((n # d # rest) ! (2 * i + 1)))"
  proof (intro allI impI)
    fix i assume i: "i < length (n # d # rest) div 2"
    show "stops (song_calls k t (n # d # rest)) ! i
           = jadd (starts (song_calls k t (n # d # rest)) ! i)
               (parseFloat ((n # d # rest) ! (2 * i + 1)))"
    proof (cases i)
      case 0
      then show ?thesis by (simp add: st sp del: song_calls.simps)
    next
      case (Suc j)
      with i have "j < length rest div 2" by simp
      with IH Suc show ?thesis by (simp add: st sp del: song_calls.simps)
    qed
  qed
  have b: "\<forall>i. Suc i < length (n # d # rest) div 2 \<longrightarrow>
         starts (song_calls k t (n # d # rest)) ! Suc i
           = jadd (starts (song_calls k t (n # d # rest)) ! i)
               (parseFloat ((n # d # rest) ! (2 * i + 1)))"
  proof (intro allI impI)
    fix i assume i: "Suc i < length (n # d # rest) div 2"
    show "starts (song_calls k t (n # d # rest)) ! Suc i
           = jadd (starts (song_calls k t (n # d # rest)) ! i)
               (parseFloat ((n # d # rest) ! (2 * i + 1)))"
    proof (cases i)
      case 0
      with i have "rest \<noteq> []" by auto
      with IH 0 show ?thesis by (simp add: st del: song_calls.simps)
    next
      case (Suc j)
      with i have "Suc j < length rest div 2" by simp
      with IH Suc show ?thesis by (simp add: st del: song_calls.simps)
    qed
  qed
  from IH a b show ?case by (simp add: st sp del: song_calls.simps)
qed


lemma accepts_all_permissive: "accepts_all (permissive now)"
  by (simp add: accepts_all_def permissive_def)



lemma noteToFrequency_H4: "noteToFrequency ''H4'' = Inl (Exn ''Error'' ''Invalid note: H4'')"
  by (simp add: noteToFrequency_def)

lemmas double_simps = to_double_moderate to_double_0

lemmas run_defs = song_defs token_defs split_ws.simps float_defs Let_def
  permissive_def strict_def strict_throws_def time_error_def
  noteToFrequency_C4 noteToFrequency_D4 noteToFrequency_H4 double_simps

subsection \<open>Claims about the schedule\<close>



text \<open>
  C6. When the split yields an odd number of tokens, \<open>playSong\<close> shows the message about
  NOTE DURATION pairs and returns: it ends normally, no event and no tone is produced, and
  no call is made on the audio backend, whatever the backend is.
\<close>

theorem odd_token_count_rejected:
  assumes "odd (length (split_ws (trim data)))"
  shows "playSong bk data = (Normal, \<lparr>alerts = [pairs_message], audio = []\<rparr>)"
  using assms by (rule playSong_odd)

theorem odd_token_count_rejected_witness:
  "odd (length (split_ws (trim ''C4 0.5 D4'')))
   \<and> playSong (strict 0) ''C4 0.5 D4'' = (Normal, \<lparr>alerts = [pairs_message], audio = []\<rparr>)"
proof -
  have h: "odd (length (split_ws (trim ''C4 0.5 D4'')))"
    by (simp add: token_defs split_ws.simps)
  from h odd_token_count_rejected [OF h] show ?thesis by blast
qed

text \<open>
  C5, as stated, fails: the empty song is not accepted in silence. The trimmed empty string
  splits into one part, the empty token; the count is odd and the message about pairs is
  shown.
\<close>

theorem empty_song_counterexample:
  "split_ws (trim []) = [[]]
   \<and> playSong (permissive 0) [] = (Normal, \<lparr>alerts = [pairs_message], audio = []\<rparr>)"
  by (simp add: playSong_def playSong_from_def playSong_try_def alert_def trim_def split_ws.simps)

text \<open>
  C5, amended. The empty song string produces no tone and no backend call, but it does not
  succeed: trimming and splitting on runs of white space yields the single empty token,
  so the count is odd and \<open>playSong\<close> shows the message about NOTE DURATION pairs.
\<close>

theorem empty_song_rejected:
  "split_ws (trim []) = [[]]
   \<and> playSong bk [] = (Normal, \<lparr>alerts = [pairs_message], audio = []\<rparr>)"
proof -
  have s: "split_ws (trim []) = [[]]"
    by (simp add: trim_def split_ws.simps)
  then have "odd (length (split_ws (trim [])))" by simp
  from s playSong_odd [OF this] show ?thesis by blast
qed

text \<open>
  C9. \<open>playSong\<close> always ends normally: no thrown value leaves it. Whatever is thrown
  inside the \<^verbatim>\<open>try\<close> block, by \<open>noteToFrequency\<close> or by a backend call, is shown as
  the message \<^verbatim>\<open>Error playing song: \<close> followed by the error, and the calls made
  before it stay made.
\<close>

theorem playSong_catches_every_error:
  "fst (playSong bk data) = Normal
   \<and> (\<forall>e w. playSong_try bk data \<lparr>alerts = [], audio = []\<rparr> = (Throw e, w) \<longrightarrow>
         playSong bk data
           = (Normal, w\<lparr>alerts := alerts w @ [''Error playing song: '' @ exn_to_string e]\<rparr>))"
proof -
  obtain c w where r: "playSong_try bk data \<lparr>alerts = [], audio = []\<rparr> = (c, w)"
    by (cases "playSong_try bk data \<lparr>alerts = [], audio = []\<rparr>")
  show ?thesis
    by (cases c) (simp_all add: playSong_def playSong_from_def alert_def r)
qed

theorem playSong_catches_every_error_witness:
  "playSong_try (permissive 0) ''H4 1'' \<lparr>alerts = [], audio = []\<rparr>
     = (Throw (Exn ''Error'' ''Invalid note: H4''), \<lparr>alerts = [], audio = [NewAudioContext]\<rparr>)
   \<and> playSong (permissive 0) ''H4 1''
     = (Normal, \<lparr>alerts = [''Error playing song: Error: Invalid note: H4''],
                 audio = [NewAudioContext]\<rparr>)"
proof -
  have t: "playSong_try (permissive 0) ''H4 1'' \<lparr>alerts = [], audio = []\<rparr>
     = (Throw (Exn ''Error'' ''Invalid note: H4''), \<lparr>alerts = [], audio = [NewAudioContext]\<rparr>)"
    by (simp add: run_defs)
  from playSong_catches_every_error [of "permissive 0" "''H4 1''"] t
  have "playSong (permissive 0) ''H4 1''
     = (Normal, \<lparr>alerts = [], audio = [NewAudioContext]\<rparr>
          \<lparr>alerts := alerts \<lparr>alerts = [], audio = [NewAudioContext]\<rparr>
             @ [''Error playing song: '' @ exn_to_string (Exn ''Error'' ''Invalid note: H4'')]\<rparr>)"
    by blast
  with t show ?thesis by simp
qed

text \<open>
  C3, as stated, fails: the song C4 0.5 H4 0.5 has an invalid note token, and yet the tone
  of its first pair is scheduled before the error is reported.
\<close>

theorem partial_playback_counterexample:
  "\<not> valid_note ''H4''
   \<and> playSong (permissive 0) ''C4 0.5 H4 0.5''
     = (Normal, \<lparr>alerts = [''Error playing song: Error: Invalid note: H4''],
          audio = NewAudioContext
            # tone_calls 0 (Num (440 * 2 powr (real_of_int (60 - 69) / 12))) (Num 0) (Num (1 / 2))\<rparr>)"
  by (simp add: run_defs valid_note_def)

text \<open>
  C3, amended. A song with an odd number of tokens produces no audio at all. A song with
  an even number of tokens is played pair by pair: when its first invalid note token is in
  pair \<open>k\<close> and the backend accepts the calls, \<open>playSong\<close> has scheduled exactly
  the tones of the \<open>k\<close> pairs before it when it reports the error, and nothing of that
  pair or of a later one; so no tone is scheduled only when the invalid note is in the
  first pair.
\<close>

theorem playback_until_first_invalid_note:
  "(odd (length (split_ws (trim data))) \<longrightarrow>
      playSong bk data = (Normal, \<lparr>alerts = [pairs_message], audio = []\<rparr>))
   \<and> (accepts_all bk \<and> split_ws (trim data) = pre @ bad # d # post \<and> notes_valid pre
        \<and> even (length post) \<and> \<not> valid_note bad \<longrightarrow>
      playSong bk data
        = (Normal, \<lparr>alerts = [''Error playing song: Error: Invalid note: '' @ bad],
             audio = NewAudioContext # song_calls 0 (Num (currentTime bk)) pre\<rparr>)
      \<and> length (starts (audio (snd (playSong bk data)))) = length pre div 2
      \<and> length (stops (audio (snd (playSong bk data)))) = length pre div 2)"
proof (rule conjI; rule impI)
  assume "odd (length (split_ws (trim data)))"
  then show "playSong bk data = (Normal, \<lparr>alerts = [pairs_message], audio = []\<rparr>)"
    by (rule playSong_odd)
next
  assume a: "accepts_all bk \<and> split_ws (trim data) = pre @ bad # d # post \<and> notes_valid pre
        \<and> even (length post) \<and> \<not> valid_note bad"
  then have run: "playSong bk data
        = (Normal, \<lparr>alerts = [''Error playing song: Error: Invalid note: '' @ bad],
             audio = NewAudioContext # song_calls 0 (Num (currentTime bk)) pre\<rparr>)"
    using playSong_invalid_note [of bk data pre bad d post] by blast
  from a have "notes_valid pre" by blast
  from song_calls_reads [OF this, of 0 "Num (currentTime bk)"]
  have "length (starts (audio (snd (playSong bk data)))) = length pre div 2
      \<and> length (stops (audio (snd (playSong bk data)))) = length pre div 2"
    by (simp add: run reads_NewAudioContext)
  with run show "playSong bk data
        = (Normal, \<lparr>alerts = [''Error playing song: Error: Invalid note: '' @ bad],
             audio = NewAudioContext # song_calls 0 (Num (currentTime bk)) pre\<rparr>)
      \<and> length (starts (audio (snd (playSong bk data)))) = length pre div 2
      \<and> length (stops (audio (snd (playSong bk data)))) = length pre div 2"
    by blast
qed

theorem playback_until_first_invalid_note_witness:
  "odd (length (split_ws (trim ''C4 0.5 D4'')))
   \<and> playSong (permissive 0) ''C4 0.5 D4'' = (Normal, \<lparr>alerts = [pairs_message], audio = []\<rparr>)
   \<and> accepts_all (permissive 0)
   \<and> split_ws (trim ''C4 0.5 H4 0.5 E4 1'') = [''C4'', ''0.5''] @ ''H4'' # ''0.5'' # [''E4'', ''1'']
   \<and> notes_valid [''C4'', ''0.5''] \<and> even (length [''E4'', ''1'']) \<and> \<not> valid_note ''H4''
   \<and> playSong (permissive 0) ''C4 0.5 H4 0.5 E4 1''
        = (Normal, \<lparr>alerts = [''Error playing song: Error: Invalid note: H4''],
             audio = NewAudioContext # song_calls 0 (Num 0) [''C4'', ''0.5'']\<rparr>)
   \<and> length (starts (audio (snd (playSong (permissive 0) ''C4 0.5 H4 0.5 E4 1'')))) = 1"
proof -
  have h1: "odd (length (split_ws (trim ''C4 0.5 D4'')))"
    by (simp add: token_defs split_ws.simps)
  have h2: "accepts_all (permissive 0)"
    by (rule accepts_all_permissive)
  have h3: "split_ws (trim ''C4 0.5 H4 0.5 E4 1'')
      = [''C4'', ''0.5''] @ ''H4'' # ''0.5'' # [''E4'', ''1'']"
    by (simp add: token_defs split_ws.simps)
  have h4: "notes_valid [''C4'', ''0.5'']" "even (length [''E4'', ''1''])" "\<not> valid_note ''H4''"
    by (simp_all add: valid_note_def is_digit_def)
  have c: "currentTime (permissive 0) = 0"
    by (simp add: permissive_def)
  from playback_until_first_invalid_note
    [of "''C4 0.5 D4''" "permissive 0" "[]" "[]" "[]" "[]"] h1
  have a: "playSong (permissive 0) ''C4 0.5 D4'' = (Normal, \<lparr>alerts = [pairs_message], audio = []\<rparr>)"
    by blast
  from playback_until_first_invalid_note
    [of "''C4 0.5 H4 0.5 E4 1''" "permissive 0" "[''C4'', ''0.5'']" "''H4''" "''0.5''" "[''E4'', ''1'']"]
    h2 h3 h4
  have b: "playSong (permissive 0) ''C4 0.5 H4 0.5 E4 1''
        = (Normal, \<lparr>alerts = [''Error playing song: Error: Invalid note: '' @ ''H4''],
             audio = NewAudioContext # song_calls 0 (Num (currentTime (permissive 0))) [''C4'', ''0.5'']\<rparr>)
      \<and> length (starts (audio (snd (playSong (permissive 0) ''C4 0.5 H4 0.5 E4 1''))))
          = length [''C4'', ''0.5''] div 2"
    by blast
  from b [THEN conjunct1] have b1: "playSong (permissive 0) ''C4 0.5 H4 0.5 E4 1''
        = (Normal, \<lparr>alerts = [''Error playing song: Error: Invalid note: H4''],
             audio = NewAudioContext # song_calls 0 (Num 0) [''C4'', ''0.5'']\<rparr>)"
    unfolding c by (simp del: song_calls.simps)
  from b [THEN conjunct2] have b2: "length (starts (audio (snd (playSong (permissive 0) ''C4 0.5 H4 0.5 E4 1'')))) = 1"
    by simp
  from h1 a h2 h3 h4 b1 b2 show ?thesis by blast
qed

text \<open>
  C4, as stated, fails: \<open>playSong\<close> has no check of the duration. On a backend that
  accepts every call the song C4 -1 D4 0.5 is played to the end with no message. On a
  backend that rejects negative and non-finite times, the same song does end with a
  message, that of the backend's RangeError, but only after the first oscillator was
  started; and the song C4 1 D4 -0.5, whose stop times are not negative, is played to the
  end with no message.
\<close>

theorem negative_duration_counterexample:
  "\<not> valid_duration ''-1'' \<and> \<not> valid_duration ''-0.5''
   \<and> playSong (permissive 0) ''C4 -1 D4 0.5''
     = (Normal, \<lparr>alerts = [],
          audio = NewAudioContext
            # tone_calls 0 (Num (440 * 2 powr (real_of_int (60 - 69) / 12))) (Num 0) (Num (- 1))
            @ tone_calls 1 (Num (440 * 2 powr (real_of_int (62 - 69) / 12))) (Num (- 1)) (Num (1 / 2))\<rparr>)
   \<and> playSong (strict 0) ''C4 -1 D4 0.5''
     = (Normal, \<lparr>alerts = [''Error playing song: RangeError''],
          audio = [NewAudioContext, CreateOscillator 0, CreateGain 0,
            SetFrequency 0 (Num (440 * 2 powr (real_of_int (60 - 69) / 12))),
            SetType 0 ''square'', ConnectOscGain 0, ConnectGainDestination 0,
            SetValueAtTime 0 (1 / 10) (Num 0), OscStart 0 (Num 0)]\<rparr>)
   \<and> playSong (strict 0) ''C4 1 D4 -0.5''
     = (Normal, \<lparr>alerts = [],
          audio = NewAudioContext
            # tone_calls 0 (Num (440 * 2 powr (real_of_int (60 - 69) / 12))) (Num 0) (Num 1)
            @ tone_calls 1 (Num (440 * 2 powr (real_of_int (62 - 69) / 12))) (Num 1) (Num (- (1 / 2)))\<rparr>)"
  by (simp add: run_defs valid_duration_def)

text \<open>
  C4, amended. \<open>playSong\<close> does not validate duration tokens and raises no error for
  them: whatever \<open>parseFloat\<close> returns for the token (a negative number, NaN and the
  infinities too) is used as the duration. For every song with an even number of tokens
  and valid note tokens, on a backend that accepts the calls, \<open>playSong\<close> ends with no
  message, starts one oscillator per pair, asks for its stop at its start plus the parsed
  duration, and starts the next one at that same time.
\<close>

theorem durations_not_validated:
  assumes "accepts_all bk" and "notes_valid (split_ws (trim data))"
  shows "let parts = split_ws (trim data);
             r = playSong bk data;
             tr = audio (snd r)
         in fst r = Normal \<and> alerts (snd r) = []
            \<and> length (starts tr) = length parts div 2 \<and> length (stops tr) = length parts div 2
            \<and> (parts \<noteq> [] \<longrightarrow> starts tr ! 0 = Num (currentTime bk))
            \<and> (\<forall>i<length parts div 2.
                  stops tr ! i = jadd (starts tr ! i) (parseFloat (parts ! (2 * i + 1))))
            \<and> (\<forall>i. Suc i < length parts div 2 \<longrightarrow>
                  starts tr ! Suc i = jadd (starts tr ! i) (parseFloat (parts ! (2 * i + 1))))"
  using song_calls_reads [OF assms(2), of 0 "Num (currentTime bk)"]
  by (simp add: Let_def playSong_accepting [OF assms] reads_NewAudioContext)

theorem durations_not_validated_witness:
  "accepts_all (permissive 0) \<and> notes_valid (split_ws (trim ''C4 -1 D4 abc''))
   \<and> parseFloat ''-1'' = Num (- 1) \<and> parseFloat ''abc'' = NaN
   \<and> (let r = playSong (permissive 0) ''C4 -1 D4 abc''; tr = audio (snd r)
      in fst r = Normal \<and> alerts (snd r) = [] \<and> length (starts tr) = 2 \<and> length (stops tr) = 2
         \<and> starts tr ! 0 = Num 0 \<and> stops tr ! 0 = Num (- 1)
         \<and> starts tr ! 1 = Num (- 1) \<and> stops tr ! 1 = NaN)"
proof -
  have s: "split_ws (trim ''C4 -1 D4 abc'') = [''C4'', ''-1'', ''D4'', ''abc'']"
    by (simp add: token_defs split_ws.simps)
  have h1: "accepts_all (permissive 0)"
    by (rule accepts_all_permissive)
  have h2: "notes_valid (split_ws (trim ''C4 -1 D4 abc''))"
    by (simp add: s valid_note_def is_digit_def)
  have p: "parseFloat ''-1'' = Num (- 1)" "parseFloat ''abc'' = NaN"
    by (simp_all add: float_defs token_defs double_simps)
  have c: "currentTime (permissive 0) = 0"
    by (simp add: permissive_def)
  define tr where "tr = audio (snd (playSong (permissive 0) ''C4 -1 D4 abc''))"
  let ?parts = "[''C4'', ''-1'', ''D4'', ''abc'']"
  from durations_not_validated [OF h1 h2]
  have T: "fst (playSong (permissive 0) ''C4 -1 D4 abc'') = Normal
      \<and> alerts (snd (playSong (permissive 0) ''C4 -1 D4 abc'')) = []
      \<and> length (starts tr) = length ?parts div 2 \<and> length (stops tr) = length ?parts div 2
      \<and> (?parts \<noteq> [] \<longrightarrow> starts tr ! 0 = Num 0)
      \<and> (\<forall>i<length ?parts div 2.
            stops tr ! i = jadd (starts tr ! i) (parseFloat (?parts ! (2 * i + 1))))
      \<and> (\<forall>i. Suc i < length ?parts div 2 \<longrightarrow>
            starts tr ! Suc i = jadd (starts tr ! i) (parseFloat (?parts ! (2 * i + 1))))"
    unfolding Let_def s c tr_def [symmetric] by blast
  then have s0: "starts tr ! 0 = Num 0" by simp
  from T have "stops tr ! 0 = jadd (starts tr ! 0) (parseFloat (?parts ! (2 * 0 + 1)))" by simp
  with s0 have e0: "stops tr ! 0 = Num (- 1)" by (simp add: p double_simps)
  from T have "starts tr ! Suc 0 = jadd (starts tr ! 0) (parseFloat (?parts ! (2 * 0 + 1)))" by simp
  with s0 have s1: "starts tr ! 1 = Num (- 1)" by (simp add: p double_simps)
  from T have "stops tr ! 1 = jadd (starts tr ! 1) (parseFloat (?parts ! (2 * 1 + 1)))" by simp
  with s1 have e1: "stops tr ! 1 = NaN" by (simp add: p double_simps)
  from T s0 e0 s1 e1
  have "let r = playSong (permissive 0) ''C4 -1 D4 abc''; tr = audio (snd r)
      in fst r = Normal \<and> alerts (snd r) = [] \<and> length (starts tr) = 2 \<and> length (stops tr) = 2
         \<and> starts tr ! 0 = Num 0 \<and> stops tr ! 0 = Num (- 1)
         \<and> starts tr ! 1 = Num (- 1) \<and> stops tr ! 1 = NaN"
    unfolding Let_def tr_def [symmetric] by simp
  with h1 h2 p show ?thesis by blast
qed

subsection \<open>Numeric prefixes\<close>









end
